theory Spec2Isabelle
  imports Complex_Main "HOL-Library.Char_ord" "HOL-Library.List_Lexorder"
begin

section \<open>Data model of report\_generator.py\<close>

text \<open>
  The script builds a pandas DataFrame with the columns Date, Category and Amount,
  aggregates it and lays the aggregates out in a PDF. The embedding keeps the frame as
  the list of its rows, in index order.

  Amounts are binary floating-point numbers (doubles) in the script. A double that is a
  number is a rational, and is modelled as that rational; the one float that is not a
  number and that pandas produces on this path, NaN, is a constructor of its own. The sum
  and the mean are given twice: in exact arithmetic (\<open>series_sum\<close>, \<open>series_mean\<close>,
  \<open>summary\<close>), which is the reading of the statements that speak of exact arithmetic or
  of a rounding tolerance, and with every operation rounded to the nearest double
  (\<open>series_sum_f64\<close>, \<open>series_mean_f64\<close>, \<open>summary_f64\<close>), which is what the
  script computes. A date is the number of days after 2025-01-01, the start of the
  script's date range. Strings are compared as Python compares them, lexicographically by
  character code.
\<close>

datatype pyfloat = Fin rat | NaN

record row =
  Date :: int
  Category :: string
  Amount :: rat

type_synonym dataframe = "row list"


fun py_add :: "pyfloat \<Rightarrow> pyfloat \<Rightarrow> pyfloat" where
  "py_add (Fin a) (Fin b) = Fin (a + b)"
| "py_add _ _ = NaN"

fun py_truediv :: "pyfloat \<Rightarrow> int \<Rightarrow> pyfloat" where
  "py_truediv (Fin a) n = Fin (a / of_int n)"
| "py_truediv NaN n = NaN"

definition py_sum :: "pyfloat list \<Rightarrow> pyfloat" where
  "py_sum xs = foldl py_add (Fin 0) xs"

text \<open>Rounding to the nearest integer, a tie going to the even neighbour: the rounding
  of \<open>np.round\<close> and of Python's float formatting.\<close>

definition rint :: "rat \<Rightarrow> int" where
  "rint x =
     (let f = \<lfloor>x\<rfloor>; d = x - of_int f
      in if d < 1 / 2 then f else if 1 / 2 < d then f + 1 else if even f then f else f + 1)"

section \<open>Step 2: the sample dataset\<close>

text \<open>
  NumPy is not part of the script. Its global generator is a parameter of the model: a
  state of some type \<open>'g\<close> and the three operations that the script reaches.
  \<open>np.random.seed(n)\<close> replaces the state by one that depends on \<open>n\<close> alone;
  \<open>randint\<close> (through which \<open>np.random.choice\<close> draws its indices) and \<open>uniform\<close>
  return their draws and the next state.
\<close>

datatype error = ValueError

record 'g numpy_random =
  rng_seed :: "nat \<Rightarrow> 'g"
  rng_randint :: "'g \<Rightarrow> nat \<Rightarrow> nat \<Rightarrow> nat list \<times> 'g"
  rng_uniform :: "'g \<Rightarrow> rat \<Rightarrow> rat \<Rightarrow> nat \<Rightarrow> rat list \<times> 'g"

text \<open>
  \<open>np.random.choice(a, k)\<close> draws \<open>k\<close> indices into \<open>a\<close> and returns the elements
  at them; it raises ValueError on an empty \<open>a\<close> when samples are asked for.
  \<open>np.round(x, 2)\<close> rounds \<open>100 x\<close> to an integer and divides by 100.
  \<open>pd.date_range(start, periods=n)\<close> is \<open>n\<close> consecutive days from \<open>start\<close>.
  \<open>pd.DataFrame\<close> of a dictionary of columns raises ValueError unless the columns
  have the same length.
\<close>

definition np_random_choice ::
    "'g numpy_random \<Rightarrow> 'g \<Rightarrow> 'a list \<Rightarrow> nat \<Rightarrow> error + ('a list \<times> 'g)" where
  "np_random_choice rng g a k =
     (if a = [] \<and> k \<noteq> 0 then Inl ValueError
      else (let (idx, g') = rng_randint rng g (length a) k
            in Inr (map (\<lambda>i. a ! i) idx, g')))"

definition np_round2 :: "rat \<Rightarrow> rat" where
  "np_round2 x = of_int (rint (x * 100)) / 100"

definition date_range :: "int \<Rightarrow> nat \<Rightarrow> int list" where
  "date_range start periods = map (\<lambda>i. start + int i) [0..<periods]"

definition categories :: "string list" where
  "categories = [''Electronics'', ''Clothing'', ''Books'', ''Food'']"

definition DataFrame :: "int list \<Rightarrow> string list \<Rightarrow> rat list \<Rightarrow> error + dataframe" where
  "DataFrame ds cs xs =
     (if length ds = length cs \<and> length cs = length xs
      then Inr (map (\<lambda>(d, c, x). \<lparr> Date = d, Category = c, Amount = x \<rparr>) (zip ds (zip cs xs)))
      else Inl ValueError)"

text \<open>
  Lines 25 to 33 of the script, with the seed and the date range as arguments. The state
  \<open>g0\<close> in which the generator was before is overwritten by the call of \<open>seed\<close>.
  The script itself runs with seed 10 and 100 days from 2025-01-01.
\<close>

definition create_sample_dataset ::
    "'g numpy_random \<Rightarrow> nat \<Rightarrow> int \<Rightarrow> nat \<Rightarrow> 'g \<Rightarrow> error + (dataframe \<times> 'g)" where
  "create_sample_dataset rng sd start periods g0 =
     (let g1 = rng_seed rng sd;
          dates = date_range start periods
      in case np_random_choice rng g1 dates 120 of
           Inl e \<Rightarrow> Inl e
         | Inr (ds, g2) \<Rightarrow>
            (case np_random_choice rng g2 categories 120 of
               Inl e \<Rightarrow> Inl e
             | Inr (cs, g3) \<Rightarrow>
                (let (us, g4) = rng_uniform rng g3 50 1000 120
                 in case DataFrame ds cs (map np_round2 us) of
                      Inl e \<Rightarrow> Inl e
                    | Inr df \<Rightarrow> Inr (df, g4))))"

definition script_dataset :: "'g numpy_random \<Rightarrow> 'g \<Rightarrow> error + (dataframe \<times> 'g)" where
  "script_dataset rng g0 = create_sample_dataset rng 10 0 100 g0"

text \<open>
  What NumPy documents of the two draws: \<open>randint\<close> returns as many indices as were
  asked for, each below the bound, and \<open>uniform(low, high)\<close> as many values, each in
  \<open>[low, high)\<close>. \<open>counter_rng\<close> is a small generator that keeps both; it shows that
  the contract can be met.
\<close>

definition randint_contract :: "'g numpy_random \<Rightarrow> bool" where
  "randint_contract rng \<longleftrightarrow>
     (\<forall>g n k. 0 < n \<longrightarrow>
        length (fst (rng_randint rng g n k)) = k \<and> (\<forall>i \<in> set (fst (rng_randint rng g n k)). i < n))"

definition uniform_contract :: "'g numpy_random \<Rightarrow> bool" where
  "uniform_contract rng \<longleftrightarrow>
     (\<forall>g lo hi k. lo < hi \<longrightarrow>
        length (fst (rng_uniform rng g lo hi k)) = k \<and>
        (\<forall>u \<in> set (fst (rng_uniform rng g lo hi k)). lo \<le> u \<and> u < hi))"

definition counter_rng :: "nat numpy_random" where
  "counter_rng =
     \<lparr> rng_seed = (\<lambda>n. n),
       rng_randint = (\<lambda>g n k. (map (\<lambda>i. (g + i) mod n) [0..<k], g + k)),
       rng_uniform = (\<lambda>g lo hi k. (map (\<lambda>i. lo + (hi - lo) * of_nat ((g + i) mod 8) / 8) [0..<k], g + k)) \<rparr>"

section \<open>Step 3: the aggregates\<close>

text \<open>
  The reductions of a pandas Series of floats. On the empty Series \<open>sum\<close> is 0.0 and
  \<open>mean\<close>, \<open>max\<close> and \<open>min\<close> are NaN; none of them raises. Here \<open>series_sum\<close> and
  \<open>series_mean\<close> add and divide exactly; the rounded versions follow below.
  \<open>count\<close>, \<open>max\<close> and \<open>min\<close> involve no rounding.
\<close>

definition len_df :: "dataframe \<Rightarrow> int" where
  "len_df df = int (length df)"

definition series_count :: "rat list \<Rightarrow> int" where
  "series_count xs = int (length xs)"

definition series_sum :: "rat list \<Rightarrow> pyfloat" where
  "series_sum xs = Fin (sum_list xs)"

definition series_mean :: "rat list \<Rightarrow> pyfloat" where
  "series_mean xs = (if xs = [] then NaN else Fin (sum_list xs / of_nat (length xs)))"

definition series_max :: "rat list \<Rightarrow> pyfloat" where
  "series_max xs = (case xs of [] \<Rightarrow> NaN | x # ys \<Rightarrow> Fin (fold max ys x))"

definition series_min :: "rat list \<Rightarrow> pyfloat" where
  "series_min xs = (case xs of [] \<Rightarrow> NaN | x # ys \<Rightarrow> Fin (fold min ys x))"

text \<open>The dictionary \<open>summary\<close>: five fixed keys, here the fields of a record, in the
  order in which the script inserts them.\<close>

record summary_stats =
  Total_Transactions :: int
  Total_Amount :: pyfloat
  Average_Amount :: pyfloat
  Highest_Sale :: pyfloat
  Lowest_Sale :: pyfloat

definition summary :: "dataframe \<Rightarrow> summary_stats" where
  "summary df =
     \<lparr> Total_Transactions = len_df df,
       Total_Amount = series_sum (map Amount df),
       Average_Amount = series_mean (map Amount df),
       Highest_Sale = series_max (map Amount df),
       Lowest_Sale = series_min (map Amount df) \<rparr>"

text \<open>
  \<open>df.groupby("Category")["Amount"].agg(["count", "sum", "mean"]).reset_index()\<close>:
  \<open>groupby\<close> sorts the group keys (its default, \<open>sort=True\<close>), each group holds the
  amounts of the rows with that key in frame order, and \<open>reset_index\<close> turns the key
  into the first column.
\<close>

record category_row =
  agg_Category :: string
  agg_count :: int
  agg_sum :: pyfloat
  agg_mean :: pyfloat

definition groupby_keys :: "dataframe \<Rightarrow> string list" where
  "groupby_keys df = sort (remdups (map Category df))"

definition group_amounts :: "dataframe \<Rightarrow> string \<Rightarrow> rat list" where
  "group_amounts df c = map Amount (filter (\<lambda>r. Category r = c) df)"

definition agg_row :: "dataframe \<Rightarrow> string \<Rightarrow> category_row" where
  "agg_row df c =
     \<lparr> agg_Category = c,
       agg_count = series_count (group_amounts df c),
       agg_sum = series_sum (group_amounts df c),
       agg_mean = series_mean (group_amounts df c) \<rparr>"

definition category_totals :: "dataframe \<Rightarrow> category_row list" where
  "category_totals df = map (agg_row df) (groupby_keys df)"

section \<open>Step 3 in double precision\<close>

text \<open>
  Rounding a rational to the nearest double, a tie going to the even significand:
  \<open>ilog2\<close> is the binary exponent of a positive number, and a double has 53 significant
  bits. Overflow and subnormal numbers are left out; the amounts of the script lie
  between 50 and 1000.
\<close>

function ilog2 :: "rat \<Rightarrow> int" where
  "ilog2 x =
     (if x \<le> 0 then 0
      else if 2 \<le> x then ilog2 (x / 2) + 1
      else if x < 1 then ilog2 (x * 2) - 1
      else 0)"
  by pat_completeness auto
termination
proof (relation "measure (\<lambda>x. if 1 \<le> x then nat \<lfloor>x\<rfloor> else nat \<lfloor>1 / x\<rfloor> + 1)")
  show "wf (measure (\<lambda>x::rat. if 1 \<le> x then nat \<lfloor>x\<rfloor> else nat \<lfloor>1 / x\<rfloor> + 1))" by simp
next
  fix x :: rat
  assume "\<not> x \<le> 0" and x2: "2 \<le> x"
  have "x / 2 \<le> x - 1" using x2 by simp
  then have "\<lfloor>x / 2\<rfloor> \<le> \<lfloor>x - 1\<rfloor>" by (rule floor_mono)
  then have a: "\<lfloor>x / 2\<rfloor> < \<lfloor>x\<rfloor>" by simp
  have "2 \<le> \<lfloor>x\<rfloor>" using x2 by (simp add: le_floor_iff)
  with a have "nat \<lfloor>x / 2\<rfloor> < nat \<lfloor>x\<rfloor>" by simp
  then show "(x / 2, x) \<in> measure (\<lambda>x. if 1 \<le> x then nat \<lfloor>x\<rfloor> else nat \<lfloor>1 / x\<rfloor> + 1)"
    using x2 by simp
next
  fix x :: rat
  assume x0: "\<not> x \<le> 0" and "\<not> 2 \<le> x" and x1: "x < 1"
  have y1: "1 < 1 / x" using x0 x1 by simp
  then have f1: "1 \<le> \<lfloor>1 / x\<rfloor>" by (simp add: le_floor_iff)
  show "(x * 2, x) \<in> measure (\<lambda>x. if 1 \<le> x then nat \<lfloor>x\<rfloor> else nat \<lfloor>1 / x\<rfloor> + 1)"
  proof (cases "1 \<le> x * 2")
    case True
    have "x * 2 < 2" using x1 by simp
    then have "\<lfloor>x * 2\<rfloor> < 2" by (simp add: floor_less_iff)
    then have a: "nat \<lfloor>x * 2\<rfloor> \<le> 1" by linarith
    have b: "1 \<le> nat \<lfloor>1 / x\<rfloor>" using f1 by linarith
    from a b have "nat \<lfloor>x * 2\<rfloor> < nat \<lfloor>1 / x\<rfloor> + 1" by linarith
    then show ?thesis using True x1 by simp
  next
    case False
    then have "2 \<le> 1 / x" using x0 by (simp add: field_simps)
    then have "1 / x / 2 \<le> 1 / x - 1" by simp
    then have "\<lfloor>1 / x / 2\<rfloor> \<le> \<lfloor>1 / x - 1\<rfloor>" by (rule floor_mono)
    then have "\<lfloor>1 / (x * 2)\<rfloor> < \<lfloor>1 / x\<rfloor>" by simp
    then have "nat \<lfloor>1 / (x * 2)\<rfloor> < nat \<lfloor>1 / x\<rfloor>" using f1 by simp
    then show ?thesis using False x1 by simp
  qed
qed

declare ilog2.simps [simp del]

definition pow2 :: "int \<Rightarrow> rat" where
  "pow2 e = (if 0 \<le> e then 2 ^ nat e else 1 / 2 ^ nat (- e))"

definition round_double :: "rat \<Rightarrow> rat" where
  "round_double x =
     (if x = 0 then 0
      else (let e = ilog2 \<bar>x\<bar> - 52 in of_int (rint (x / pow2 e)) * pow2 e))"

text \<open>
  \<open>Series.sum\<close> and \<open>Series.mean\<close> on doubles: the values are added one after the
  other, every addition rounded, and the mean is the rounded quotient of that sum by
  the count. (NumPy adds eight or more values in another order; the tables evaluated
  below have three rows, and the order does not matter where all amounts are equal.)
\<close>

definition f64_sum :: "rat list \<Rightarrow> rat" where
  "f64_sum xs = foldl (\<lambda>s x. round_double (s + x)) 0 xs"

definition series_sum_f64 :: "rat list \<Rightarrow> pyfloat" where
  "series_sum_f64 xs = Fin (f64_sum xs)"

definition series_mean_f64 :: "rat list \<Rightarrow> pyfloat" where
  "series_mean_f64 xs =
     (if xs = [] then NaN else Fin (round_double (f64_sum xs / of_nat (length xs))))"

definition summary_f64 :: "dataframe \<Rightarrow> summary_stats" where
  "summary_f64 df =
     \<lparr> Total_Transactions = len_df df,
       Total_Amount = series_sum_f64 (map Amount df),
       Average_Amount = series_mean_f64 (map Amount df),
       Highest_Sale = series_max (map Amount df),
       Lowest_Sale = series_min (map Amount df) \<rparr>"


section \<open>Step 5: the summary table of the report\<close>

text \<open>
  The format \<open>{v:,.2f}\<close> of a float: the sign, the integer part in decimal with a
  comma before every group of three digits counted from the right, a point and two
  decimals, the value being rounded to hundredths; NaN prints as \<open>nan\<close>.
\<close>

definition digit_char :: "nat \<Rightarrow> char" where
  "digit_char d = ''0123456789'' ! d"

fun digits :: "nat \<Rightarrow> string" where
  "digits n = (if n < 10 then [digit_char n] else digits (n div 10) @ [digit_char (n mod 10)])"

declare digits.simps [simp del]

fun group3_rev :: "string \<Rightarrow> string" where
  "group3_rev (a # b # c # d # rest) = a # b # c # CHR '','' # group3_rev (d # rest)"
| "group3_rev ds = ds"

definition group3 :: "string \<Rightarrow> string" where
  "group3 ds = rev (group3_rev (rev ds))"

definition format_cents :: "nat \<Rightarrow> string" where
  "format_cents n =
     group3 (digits (n div 100)) @ ''.'' @ [digit_char (n mod 100 div 10), digit_char (n mod 10)]"

definition format_2f :: "pyfloat \<Rightarrow> string" where
  "format_2f v =
     (case v of
        NaN \<Rightarrow> ''nan''
      | Fin x \<Rightarrow> (if x < 0 then ''-'' else []) @ format_cents (nat (rint (\<bar>x\<bar> * 100))))"

text \<open>
  A cell of the table is the Python value put there: an int, a float or a string.
  \<open>summary_items\<close> is \<open>summary.items()\<close>, in insertion order, and \<open>data_summary\<close>
  the list comprehension of line 74, which formats a value when it is a float and
  passes it on as it is otherwise.
\<close>

datatype pyval = PyInt int | PyFloat pyfloat | PyStr string

definition summary_items :: "summary_stats \<Rightarrow> (string \<times> pyval) list" where
  "summary_items s =
     [ (''Total Transactions'', PyInt (Total_Transactions s)),
       (''Total Amount'', PyFloat (Total_Amount s)),
       (''Average Amount'', PyFloat (Average_Amount s)),
       (''Highest Sale'', PyFloat (Highest_Sale s)),
       (''Lowest Sale'', PyFloat (Lowest_Sale s)) ]"

fun summary_cell :: "pyval \<Rightarrow> pyval" where
  "summary_cell (PyFloat v) = PyStr (format_2f v)"
| "summary_cell v = v"

definition data_summary :: "summary_stats \<Rightarrow> pyval list list" where
  "data_summary s = map (\<lambda>(k, v). [PyStr k, summary_cell v]) (summary_items s)"

text \<open>
  Recognising text with thousands separators and two decimals, read from the right: two
  digits, a point, then groups of three digits separated by commas, the leftmost group
  of one to three digits, and an optional minus sign in front.
\<close>

definition is_digit :: "char \<Rightarrow> bool" where
  "is_digit c = (c \<in> set ''0123456789'')"

fun groups_rev :: "string \<Rightarrow> bool" where
  "groups_rev [] = False"
| "groups_rev [a] = is_digit a"
| "groups_rev [a, b] = (is_digit a \<and> is_digit b)"
| "groups_rev [a, b, c] = (is_digit a \<and> is_digit b \<and> is_digit c)"
| "groups_rev (a # b # c # s # rest) =
     (is_digit a \<and> is_digit b \<and> is_digit c \<and> s = CHR '','' \<and> groups_rev rest)"

fun unsigned_2f_text :: "string \<Rightarrow> bool" where
  "unsigned_2f_text s =
     (case rev s of
        d2 # d1 # p # ip \<Rightarrow> is_digit d2 \<and> is_digit d1 \<and> p = CHR ''.'' \<and> groups_rev ip
      | _ \<Rightarrow> False)"

fun is_2f_text :: "string \<Rightarrow> bool" where
  "is_2f_text (c # s) = (if c = CHR ''-'' then unsigned_2f_text s else unsigned_2f_text (c # s))"
| "is_2f_text [] = False"

fun cell_is_2f :: "pyval \<Rightarrow> bool" where
  "cell_is_2f (PyStr s) = is_2f_text s"
| "cell_is_2f _ = False"

text \<open>The three records of the specification's end-to-end scenario.\<close>

definition scenario_table :: dataframe where
  "scenario_table =
     [ \<lparr> Date = 0, Category = ''Books'', Amount = 100 \<rparr>,
       \<lparr> Date = 1, Category = ''Books'', Amount = 200 \<rparr>,
       \<lparr> Date = 2, Category = ''Food'', Amount = 50 \<rparr> ]"

section \<open>Facts about the reductions\<close>









section \<open>Facts about grouping\<close>

lemma sum_list_filter_disj:
  fixes w :: "'a \<Rightarrow> 'b::comm_monoid_add"
  assumes "\<And>x. \<not> (P x \<and> Q x)"
  shows "sum_list (map w (filter (\<lambda>x. P x \<or> Q x) xs)) =
         sum_list (map w (filter P xs)) + sum_list (map w (filter Q xs))"
proof (induction xs)
  case Nil
  show ?case by simp
next
  case (Cons x xs)
  then show ?case using assms [of x] by (auto simp: ac_simps)
qed

lemma sum_list_by_key:
  fixes w :: "'a \<Rightarrow> 'b::comm_monoid_add"
  assumes "distinct ks"
  shows "sum_list (map (\<lambda>k. sum_list (map w (filter (\<lambda>r. f r = k) xs))) ks) =
         sum_list (map w (filter (\<lambda>r. f r \<in> set ks) xs))"
  using assms
proof (induction ks)
  case Nil
  show ?case by simp
next
  case (Cons k ks)
  have disj: "\<And>r. \<not> (f r = k \<and> f r \<in> set ks)" using Cons.prems by auto
  have "sum_list (map w (filter (\<lambda>r. f r \<in> set (k # ks)) xs)) =
        sum_list (map w (filter (\<lambda>r. f r = k \<or> f r \<in> set ks) xs))"
    by simp
  also have "\<dots> = sum_list (map w (filter (\<lambda>r. f r = k) xs)) +
                  sum_list (map w (filter (\<lambda>r. f r \<in> set ks) xs))"
    using disj by (rule sum_list_filter_disj)
  finally show ?case using Cons by simp
qed

lemma groupby_keys_distinct: "distinct (groupby_keys df)"
  by (simp add: groupby_keys_def)

lemma groupby_keys_set: "set (groupby_keys df) = Category ` set df"
  by (simp add: groupby_keys_def)

lemma sum_list_groups:
  fixes w :: "row \<Rightarrow> 'b::comm_monoid_add"
  shows "sum_list (map (\<lambda>c. sum_list (map w (filter (\<lambda>r. Category r = c) df))) (groupby_keys df)) =
         sum_list (map w df)"
proof -
  have "filter (\<lambda>r. Category r \<in> set (groupby_keys df)) df = df"
    by (simp add: groupby_keys_set)
  then show ?thesis
    using sum_list_by_key [OF groupby_keys_distinct, of w Category df df] by simp
qed

lemma int_length_sum: "int (length xs) = sum_list (map (\<lambda>_. 1) xs)"
  by (induction xs) simp_all

lemma foldl_py_add_Fin:
  "foldl py_add (Fin a) (map (\<lambda>c. Fin (g c)) ks) = Fin (a + sum_list (map g ks))"
  by (induction ks arbitrary: a) (simp_all add: ac_simps)

lemma summary_finite:
  assumes "df \<noteq> []"
  shows "\<exists>t a h l. Total_Amount (summary df) = Fin t \<and> Average_Amount (summary df) = Fin a \<and>
           Highest_Sale (summary df) = Fin h \<and> Lowest_Sale (summary df) = Fin l"
  using assms
  by (cases df) (simp_all add: summary_def series_sum_def series_mean_def series_max_def series_min_def)

lemma category_order_not_first_seen:
  "map agg_Category (category_totals
     [ \<lparr> Date = 0, Category = ''Food'', Amount = 50 \<rparr>,
       \<lparr> Date = 1, Category = ''Books'', Amount = 100 \<rparr> ]) = [''Books'', ''Food'']"
  by code_simp

section \<open>Facts about formatting\<close>

lemma digits_small: "n < 10 \<Longrightarrow> digits n = [digit_char n]"
  by (subst digits.simps) simp

lemma digits_large: "10 \<le> n \<Longrightarrow> digits n = digits (n div 10) @ [digit_char (n mod 10)]"
  by (subst digits.simps) simp

lemmas format_cents_eval = format_cents_def digits_small digits_large group3_def digit_char_def

lemma format_2f_examples:
  "format_2f (Fin (1234567891 / 1000)) = ''1,234,567.89''"
  "format_2f (Fin (- 123456)) = ''-123,456.00''"
  "format_2f (Fin (1 / 8)) = ''0.12''"
  "format_2f (Fin (3 / 8)) = ''0.38''"
  "format_2f (Fin (- 1 / 1000)) = ''-0.00''"
  "format_2f NaN = ''nan''"
proof -
  have r1: "rint (\<bar>1234567891 / 1000\<bar> * 100) = 123456789" by code_simp
  have r2: "rint (\<bar>- 123456\<bar> * 100) = 12345600" by code_simp
  have r3: "rint (\<bar>1 / 8\<bar> * 100) = 12" by code_simp
  have r4: "rint (\<bar>3 / 8\<bar> * 100) = 38" by code_simp
  have r5: "rint (\<bar>- 1 / 1000\<bar> * 100) = 0" by code_simp
  show "format_2f (Fin (1234567891 / 1000)) = ''1,234,567.89''"
    by (simp only: format_2f_def pyfloat.case r1) (simp add: format_cents_eval)
  show "format_2f (Fin (- 123456)) = ''-123,456.00''"
    by (simp only: format_2f_def pyfloat.case r2) (simp add: format_cents_eval)
  show "format_2f (Fin (1 / 8)) = ''0.12''"
    by (simp only: format_2f_def pyfloat.case r3) (simp add: format_cents_eval)
  show "format_2f (Fin (3 / 8)) = ''0.38''"
    by (simp only: format_2f_def pyfloat.case r4) (simp add: format_cents_eval)
  show "format_2f (Fin (- 1 / 1000)) = ''-0.00''"
    by (simp only: format_2f_def pyfloat.case r5) (simp add: format_cents_eval)
  show "format_2f NaN = ''nan''" by (simp add: format_2f_def)
qed

lemma is_digit_digit_char: "d < 10 \<Longrightarrow> is_digit (digit_char d)"
proof -
  assume "d < 10"
  then have "d \<in> {0,1,2,3,4,5,6,7,8,9}" by auto
  then show ?thesis by (auto simp: is_digit_def digit_char_def)
qed

lemma digits_all_digit: "\<forall>c \<in> set (digits n). is_digit c"
proof (induction n rule: digits.induct)
  case (1 n)
  show ?case
  proof (cases "n < 10")
    case True
    then show ?thesis by (subst digits.simps) (simp add: is_digit_digit_char)
  next
    case False
    then have "\<forall>c \<in> set (digits (n div 10)). is_digit c" using 1 by simp
    moreover have "is_digit (digit_char (n mod 10))" by (simp add: is_digit_digit_char)
    ultimately show ?thesis using False by (subst digits.simps) auto
  qed
qed

lemma digits_nonempty: "digits n \<noteq> []"
  by (subst digits.simps) simp

lemma groups_rev_group3_rev:
  "ds \<noteq> [] \<Longrightarrow> \<forall>c \<in> set ds. is_digit c \<Longrightarrow> groups_rev (group3_rev ds)"
proof (induction ds rule: group3_rev.induct)
  case (1 a b c d rest)
  then show ?case by simp
qed simp_all

lemma unsigned_2f_text_body:
  assumes "ds \<noteq> []" "\<forall>c \<in> set ds. is_digit c" "is_digit d1" "is_digit d2"
  shows "unsigned_2f_text (group3 ds @ ''.'' @ [d1, d2])"
  using groups_rev_group3_rev [of "rev ds"] assms by (simp add: group3_def)

lemma not_minus_digit: "is_digit c \<Longrightarrow> c \<noteq> CHR ''-''"
  by (auto simp: is_digit_def)

lemma group3_hd_digit:
  assumes "ds \<noteq> []" "\<forall>c \<in> set ds. is_digit c"
  shows "\<exists>c s. group3 ds = c # s \<and> is_digit c"
proof -
  have "\<And>ds. ds \<noteq> [] \<Longrightarrow> \<forall>c \<in> set ds. is_digit c \<Longrightarrow>
          group3_rev ds \<noteq> [] \<and> is_digit (last (group3_rev ds))"
  proof -
    fix ds :: string
    show "ds \<noteq> [] \<Longrightarrow> \<forall>c \<in> set ds. is_digit c \<Longrightarrow>
          group3_rev ds \<noteq> [] \<and> is_digit (last (group3_rev ds))"
      by (induction ds rule: group3_rev.induct) simp_all
  qed
  from this [of "rev ds"] assms
  have ne: "group3_rev (rev ds) \<noteq> []" and l: "is_digit (last (group3_rev (rev ds)))" by simp_all
  then have "group3 ds \<noteq> []" and "is_digit (hd (group3 ds))"
    by (simp_all add: group3_def hd_rev)
  then show ?thesis by (cases "group3 ds") auto
qed

lemma format_2f_is_2f_text: "is_2f_text (format_2f (Fin x))"
proof -
  define n where "n = nat (rint (\<bar>x\<bar> * 100))"
  have d1: "is_digit (digit_char (n mod 100 div 10))" by (rule is_digit_digit_char) simp
  have d2: "is_digit (digit_char (n mod 10))" by (rule is_digit_digit_char) simp
  have u: "unsigned_2f_text (format_cents n)"
    unfolding format_cents_def
    by (rule unsigned_2f_text_body [OF digits_nonempty digits_all_digit d1 d2])
  obtain c s where cs: "group3 (digits (n div 100)) = c # s" and c: "is_digit c"
    using group3_hd_digit [OF digits_nonempty digits_all_digit] by blast
  have b: "format_cents n = c # (s @ ''.'' @ [digit_char (n mod 100 div 10), digit_char (n mod 10)])"
    by (simp add: format_cents_def cs)
  have pos: "is_2f_text (format_cents n)"
    using u c not_minus_digit [OF c] unfolding b by (simp del: unsigned_2f_text.simps)
  have neg: "is_2f_text (''-'' @ format_cents n)"
    using u by (simp del: unsigned_2f_text.simps)
  have "format_2f (Fin x) = (if x < 0 then ''-'' else []) @ format_cents n"
    by (simp add: format_2f_def n_def)
  then show ?thesis using pos neg by (cases "x < 0") (simp_all del: is_2f_text.simps)
qed

lemma data_summary_rows:
  "data_summary s =
     [ [PyStr ''Total Transactions'', PyInt (Total_Transactions s)],
       [PyStr ''Total Amount'', PyStr (format_2f (Total_Amount s))],
       [PyStr ''Average Amount'', PyStr (format_2f (Average_Amount s))],
       [PyStr ''Highest Sale'', PyStr (format_2f (Highest_Sale s))],
       [PyStr ''Lowest Sale'', PyStr (format_2f (Lowest_Sale s))] ]"
  by (simp add: data_summary_def summary_items_def)

lemma scenario_summary:
  "summary scenario_table =
     \<lparr> Total_Transactions = 3, Total_Amount = Fin 350, Average_Amount = Fin (350 / 3),
       Highest_Sale = Fin 200, Lowest_Sale = Fin 50 \<rparr>"
  by (simp add: summary_def scenario_table_def len_df_def series_sum_def series_mean_def
      series_max_def series_min_def)

lemma scenario_category_totals:
  "category_totals scenario_table =
     [ \<lparr> agg_Category = ''Books'', agg_count = 2, agg_sum = Fin 300, agg_mean = Fin 150 \<rparr>,
       \<lparr> agg_Category = ''Food'', agg_count = 1, agg_sum = Fin 50, agg_mean = Fin 50 \<rparr> ]"
  by code_simp

lemma scenario_formats:
  "format_2f (Fin 350) = ''350.00''"
  "format_2f (Fin (350 / 3)) = ''116.67''"
  "format_2f (Fin 200) = ''200.00''"
  "format_2f (Fin 50) = ''50.00''"
proof -
  have r1: "rint (\<bar>350\<bar> * 100) = 35000" by code_simp
  have r2: "rint (\<bar>350 / 3\<bar> * 100) = 11667" by code_simp
  have r3: "rint (\<bar>200\<bar> * 100) = 20000" by code_simp
  have r4: "rint (\<bar>50\<bar> * 100) = 5000" by code_simp
  show "format_2f (Fin 350) = ''350.00''"
    by (simp only: format_2f_def pyfloat.case r1) (simp add: format_cents_eval)
  show "format_2f (Fin (350 / 3)) = ''116.67''"
    by (simp only: format_2f_def pyfloat.case r2) (simp add: format_cents_eval)
  show "format_2f (Fin 200) = ''200.00''"
    by (simp only: format_2f_def pyfloat.case r3) (simp add: format_cents_eval)
  show "format_2f (Fin 50) = ''50.00''"
    by (simp only: format_2f_def pyfloat.case r4) (simp add: format_cents_eval)
qed

section \<open>Facts about the sample dataset\<close>

lemma rint_lower: "of_int a \<le> x \<Longrightarrow> a \<le> rint x"
proof -
  assume "of_int a \<le> x"
  then have "a \<le> \<lfloor>x\<rfloor>" by (simp add: le_floor_iff)
  then show ?thesis by (auto simp: rint_def Let_def)
qed

lemma rint_upper: "x \<le> of_int b \<Longrightarrow> rint x \<le> b"
proof -
  assume xb: "x \<le> of_int b"
  then have fb: "\<lfloor>x\<rfloor> \<le> b" by (simp add: floor_le_iff)
  show ?thesis
  proof (cases "\<lfloor>x\<rfloor> = b")
    case True
    have "of_int \<lfloor>x\<rfloor> \<le> x" by simp
    with True xb have "x = of_int b" by simp
    then show ?thesis by (simp add: rint_def Let_def)
  next
    case False
    with fb have "\<lfloor>x\<rfloor> + 1 \<le> b" by simp
    then show ?thesis by (auto simp: rint_def Let_def)
  qed
qed

lemma np_round2_bounds:
  assumes "50 \<le> u" "u < 1000"
  shows "50 \<le> np_round2 u \<and> np_round2 u \<le> 1000 \<and> (\<exists>n::int. np_round2 u = of_int n / 100)"
proof -
  have "of_int 5000 \<le> u * 100" using assms by simp
  then have l: "5000 \<le> rint (u * 100)" by (rule rint_lower)
  have "u * 100 \<le> of_int 100000" using assms by simp
  then have h: "rint (u * 100) \<le> 100000" by (rule rint_upper)
  have "(of_int 5000 :: rat) \<le> of_int (rint (u * 100))" using l by (simp only: of_int_le_iff)
  moreover have "(of_int (rint (u * 100)) :: rat) \<le> of_int 100000" using h by (simp only: of_int_le_iff)
  ultimately show ?thesis by (auto simp: np_round2_def)
qed

lemma choice_ok:
  assumes "randint_contract rng" "a \<noteq> []"
  shows "\<exists>xs g'. np_random_choice rng g a k = Inr (xs, g') \<and> length xs = k \<and> set xs \<subseteq> set a"
proof -
  obtain idx g' where r: "rng_randint rng g (length a) k = (idx, g')" by (cases "rng_randint rng g (length a) k")
  have "0 < length a" using assms(2) by simp
  with assms(1) r have len: "length idx = k" and rng: "\<forall>i \<in> set idx. i < length a"
    unfolding randint_contract_def by (metis fst_conv)+
  have "np_random_choice rng g a k = Inr (map (\<lambda>i. a ! i) idx, g')"
    using assms(2) r by (simp add: np_random_choice_def)
  moreover have "set (map (\<lambda>i. a ! i) idx) \<subseteq> set a" using rng by auto
  ultimately show ?thesis using len by simp
qed

lemma date_range_set: "set (date_range start periods) = {d. start \<le> d \<and> d < start + int periods}"
proof -
  have "\<And>d. start \<le> d \<Longrightarrow> d < start + int periods \<Longrightarrow> d \<in> (\<lambda>i. start + int i) ` {0..<periods}"
  proof -
    fix d assume "start \<le> d" "d < start + int periods"
    then have "nat (d - start) \<in> {0..<periods}" and "d = start + int (nat (d - start))" by auto
    then show "d \<in> (\<lambda>i. start + int i) ` {0..<periods}" by (rule_tac image_eqI)
  qed
  then show ?thesis by (auto simp: date_range_def)
qed

lemma dataset_ok:
  assumes rc: "randint_contract rng" and uc: "uniform_contract rng" and p: "0 < periods"
  shows "\<exists>df g'. create_sample_dataset rng sd start periods g0 = Inr (df, g') \<and>
           length df = 120 \<and>
           (\<forall>r \<in> set df.
              0 \<le> Amount r \<and> 50 \<le> Amount r \<and> Amount r \<le> 1000 \<and>
              (\<exists>n::int. Amount r = of_int n / 100) \<and>
              Category r \<in> set categories \<and>
              start \<le> Date r \<and> Date r < start + int periods)"
proof -
  have dne: "date_range start periods \<noteq> []" using p by (simp add: date_range_def)
  obtain ds g2 where
    c1: "np_random_choice rng (rng_seed rng sd) (date_range start periods) 120 = Inr (ds, g2)"
    and lds: "length ds = 120" and sds: "set ds \<subseteq> set (date_range start periods)"
    using choice_ok [OF rc dne] by blast
  have cne: "categories \<noteq> []" by (simp add: categories_def)
  obtain cs g3 where
    c2: "np_random_choice rng g2 categories 120 = Inr (cs, g3)"
    and lcs: "length cs = 120" and scs: "set cs \<subseteq> set categories"
    using choice_ok [OF rc cne] by blast
  obtain us g4 where u: "rng_uniform rng g3 50 1000 120 = (us, g4)"
    by (cases "rng_uniform rng g3 50 1000 120")
  have "(50::rat) < 1000" by simp
  with uc u have lus: "length us = 120" and sus: "\<forall>x \<in> set us. 50 \<le> x \<and> x < 1000"
    unfolding uniform_contract_def by (metis fst_conv)+
  define df where "df = map (\<lambda>(d, c, x). \<lparr> Date = d, Category = c, Amount = x \<rparr>)
                          (zip ds (zip cs (map np_round2 us)))"
  have D: "DataFrame ds cs (map np_round2 us) = Inr df"
    using lds lcs lus by (simp add: DataFrame_def df_def)
  have run: "create_sample_dataset rng sd start periods g0 = Inr (df, g4)"
    by (simp add: create_sample_dataset_def c1 c2 u D)
  have len: "length df = 120" using lds lcs lus by (simp add: df_def)
  have rows: "0 \<le> Amount r \<and> 50 \<le> Amount r \<and> Amount r \<le> 1000 \<and>
              (\<exists>n::int. Amount r = of_int n / 100) \<and>
              Category r \<in> set categories \<and>
              start \<le> Date r \<and> Date r < start + int periods" if r: "r \<in> set df" for r
  proof -
    from r obtain d c x where rr: "r = \<lparr> Date = d, Category = c, Amount = x \<rparr>"
      and z: "(d, c, x) \<in> set (zip ds (zip cs (map np_round2 us)))"
      by (auto simp: df_def)
    from z have "d \<in> set ds" by (rule set_zip_leftD)
    with sds have dd: "start \<le> d \<and> d < start + int periods" by (auto simp: date_range_set)
    from z have z2: "(c, x) \<in> set (zip cs (map np_round2 us))" by (rule set_zip_rightD)
    then have "c \<in> set cs" by (rule set_zip_leftD)
    with scs have cc: "c \<in> set categories" by auto
    from z2 have "x \<in> set (map np_round2 us)" by (rule set_zip_rightD)
    then obtain u where uu: "u \<in> set us" and xu: "x = np_round2 u" by auto
    from sus uu have "50 \<le> u" "u < 1000" by auto
    then have b: "50 \<le> np_round2 u \<and> np_round2 u \<le> 1000 \<and> (\<exists>n::int. np_round2 u = of_int n / 100)"
      by (rule np_round2_bounds)
    then have "0 \<le> np_round2 u" by linarith
    with b dd cc show ?thesis by (simp add: rr xu)
  qed
  from run len rows show ?thesis by blast
qed

lemma dataset_ignores_prior_state:
  "create_sample_dataset rng sd start periods g = create_sample_dataset rng sd start periods g'"
  by (simp add: create_sample_dataset_def)

lemma counter_rng_randint: "randint_contract counter_rng"
  by (simp add: randint_contract_def counter_rng_def)

lemma counter_rng_uniform: "uniform_contract counter_rng"
proof -
  have "lo \<le> lo + (hi - lo) * of_nat (m mod 8) / 8 \<and> lo + (hi - lo) * of_nat (m mod 8) / 8 < hi"
    if "lo < hi" for lo hi :: rat and m :: nat
  proof -
    have m: "(of_nat (m mod 8) :: rat) < 8" 
      using of_nat_less_iff [of "m mod 8" 8, where ?'a = rat] by simp
    have m0: "(0::rat) \<le> of_nat (m mod 8)" by simp
    have d: "0 < hi - lo" using that by simp
    have "0 \<le> (hi - lo) * of_nat (m mod 8) / 8" using d m0 by simp
    moreover have "(hi - lo) * of_nat (m mod 8) < (hi - lo) * 8"
      using d m by (simp only: mult_less_cancel_left_pos)
    then have "(hi - lo) * of_nat (m mod 8) / 8 < hi - lo" by simp
    ultimately show ?thesis by linarith
  qed
  then show ?thesis by (simp add: uniform_contract_def counter_rng_def)
qed

section \<open>Facts about double precision\<close>

lemma ilog2_ge2: "2 \<le> x \<Longrightarrow> ilog2 x = ilog2 (x / 2) + 1"
  by (subst ilog2.simps) simp

lemma ilog2_lt1: "0 < x \<Longrightarrow> x < 1 \<Longrightarrow> ilog2 x = ilog2 (x * 2) - 1"
  by (subst ilog2.simps) simp

lemma ilog2_unit: "1 \<le> x \<Longrightarrow> x < 2 \<Longrightarrow> ilog2 x = 0"
  by (subst ilog2.simps) simp

lemmas ilog2_eval = ilog2_ge2 ilog2_lt1 ilog2_unit

lemma round_double_tenth: "round_double (1 / 10) = 3602879701896397 / 36028797018963968"
proof -
  have e: "ilog2 \<bar>1 / 10\<bar> - 52 = - 56" by (simp add: ilog2_eval)
  have p: "pow2 (- 56) = 1 / 72057594037927936" by (simp add: pow2_def)
  have r: "rint (1 / 10 / (1 / 72057594037927936)) = 7205759403792794" by code_simp
  show ?thesis by (simp only: round_double_def Let_def e p r) simp
qed




lemma scenario_rounds:
  "round_double 100 = 100" "round_double 300 = 300" "round_double 350 = 350"
  "round_double (350 / 3) = 8209686820727467 / 70368744177664"
  by code_simp+

lemma scenario_summary_f64:
  "summary_f64 scenario_table =
     \<lparr> Total_Transactions = 3, Total_Amount = Fin 350,
       Average_Amount = Fin (8209686820727467 / 70368744177664),
       Highest_Sale = Fin 200, Lowest_Sale = Fin 50 \<rparr>"
  by (simp add: summary_f64_def scenario_table_def len_df_def
      series_sum_f64_def series_mean_f64_def f64_sum_def series_max_def series_min_def
      scenario_rounds)

lemma scenario_mean_rounds:
  "np_round2 (350 / 3) = 11667 / 100"
  "np_round2 (8209686820727467 / 70368744177664) = 11667 / 100"
  by code_simp+


section \<open>The claims\<close>

text \<open>
  C1 (as amended). Aggregating the empty table is not an error. The script has no guard
  and pandas raises nothing: the count is 0, the total is 0.0, and the mean, the
  highest and the lowest sale are NaN. These three are NaN for the empty table only.
\<close>

theorem empty_table_gives_zero_and_nan:
  "(df = [] \<longrightarrow> Total_Transactions (summary df) = 0 \<and> Total_Amount (summary df) = Fin 0) \<and>
   (Average_Amount (summary df) = NaN \<longleftrightarrow> df = []) \<and>
   (Highest_Sale (summary df) = NaN \<longleftrightarrow> df = []) \<and>
   (Lowest_Sale (summary df) = NaN \<longleftrightarrow> df = [])"
proof -
  have a: "df = [] \<longrightarrow> Total_Transactions (summary df) = 0 \<and> Total_Amount (summary df) = Fin 0"
    by (simp add: summary_def len_df_def series_sum_def)
  have b: "Average_Amount (summary df) = NaN \<longleftrightarrow> df = []"
    by (simp add: summary_def series_mean_def)
  have c: "Highest_Sale (summary df) = NaN \<longleftrightarrow> df = []"
    by (cases df) (simp_all add: summary_def series_max_def)
  have d: "Lowest_Sale (summary df) = NaN \<longleftrightarrow> df = []"
    by (cases df) (simp_all add: summary_def series_min_def)
  from a b c d show ?thesis by simp
qed

theorem empty_table_gives_zero_and_nan_witness:
  "Total_Transactions (summary []) = 0 \<and> Total_Amount (summary []) = Fin 0 \<and>
   Average_Amount (summary []) = NaN \<and> Highest_Sale (summary []) = NaN \<and>
   Lowest_Sale (summary []) = NaN"
  using empty_table_gives_zero_and_nan [of "[]"] by simp

text \<open>
  C1 as the specification states it fails: on the empty table the aggregation returns a
  value, made of zeros and NaN, and an empty category table.
\<close>

theorem empty_table_returns_value:
  "summary [] =
     \<lparr> Total_Transactions = 0, Total_Amount = Fin 0, Average_Amount = NaN,
       Highest_Sale = NaN, Lowest_Sale = NaN \<rparr> \<and>
   category_totals [] = []"
  by (simp add: summary_def len_df_def series_sum_def series_mean_def series_max_def
      series_min_def category_totals_def groupby_keys_def)

text \<open>
  C2. On the three-record table the aggregation returns count 3, total 350.00, mean
  116.67 to two decimals, highest 200.00 and lowest 50.00, and the category rows Books
  (2, 300.00, 150.00) and Food (1, 50.00, 50.00). The mean is 350/3 in exact arithmetic
  and the double nearest to it in the script; both round to 116.67 at two decimals, and
  the report prints 116.67. All the other values are exact.
\<close>

theorem scenario_aggregates:
  "summary scenario_table =
     \<lparr> Total_Transactions = 3, Total_Amount = Fin 350, Average_Amount = Fin (350 / 3),
       Highest_Sale = Fin 200, Lowest_Sale = Fin 50 \<rparr> \<and>
   np_round2 (350 / 3) = 11667 / 100 \<and>
   format_2f (Average_Amount (summary scenario_table)) = ''116.67'' \<and>
   summary_f64 scenario_table =
     \<lparr> Total_Transactions = 3, Total_Amount = Fin 350,
       Average_Amount = Fin (8209686820727467 / 70368744177664),
       Highest_Sale = Fin 200, Lowest_Sale = Fin 50 \<rparr> \<and>
   np_round2 (8209686820727467 / 70368744177664) = 11667 / 100 \<and>
   category_totals scenario_table =
     [ \<lparr> agg_Category = ''Books'', agg_count = 2, agg_sum = Fin 300, agg_mean = Fin 150 \<rparr>,
       \<lparr> agg_Category = ''Food'', agg_count = 1, agg_sum = Fin 50, agg_mean = Fin 50 \<rparr> ]"
  by (simp add: scenario_summary scenario_category_totals scenario_formats
      scenario_summary_f64 scenario_mean_rounds)

text \<open>
  C3. The count of the summary is the sum of the counts of the category rows.
\<close>

theorem count_is_sum_of_category_counts:
  "Total_Transactions (summary df) = sum_list (map agg_count (category_totals df))"
proof -
  have "sum_list (map agg_count (category_totals df)) =
        sum_list (map (\<lambda>c. sum_list (map (\<lambda>_. 1::int) (filter (\<lambda>r. Category r = c) df))) (groupby_keys df))"
    by (simp add: category_totals_def agg_row_def series_count_def group_amounts_def
        int_length_sum comp_def)
  also have "\<dots> = sum_list (map (\<lambda>_. 1::int) df)" by (rule sum_list_groups)
  also have "\<dots> = int (length df)" by (simp add: int_length_sum)
  finally show ?thesis by (simp add: summary_def len_df_def)
qed

text \<open>
  C4. The total of the summary is the sum of the totals of the category rows, added up
  as Python's \<open>sum\<close> does; over exact amounts the two are equal.
\<close>

theorem total_is_sum_of_category_totals:
  "Total_Amount (summary df) = py_sum (map agg_sum (category_totals df))"
proof -
  have "py_sum (map agg_sum (category_totals df)) =
        foldl py_add (Fin 0) (map (\<lambda>c. Fin (sum_list (map Amount (filter (\<lambda>r. Category r = c) df)))) (groupby_keys df))"
    by (simp add: py_sum_def category_totals_def agg_row_def series_sum_def group_amounts_def comp_def)
  also have "\<dots> = Fin (sum_list (map (\<lambda>c. sum_list (map Amount (filter (\<lambda>r. Category r = c) df))) (groupby_keys df)))"
    by (simp add: foldl_py_add_Fin)
  also have "\<dots> = Fin (sum_list (map Amount df))" by (simp only: sum_list_groups)
  finally show ?thesis by (simp add: summary_def series_sum_def)
qed




text \<open>
  C6. The category rows come in a stable enumeration order: the ascending order of the
  category names, each name once. The order depends on the set of categories in the
  table only, not on where a category occurs first.
\<close>

theorem category_rows_in_sorted_order:
  "map agg_Category (category_totals df) = sorted_list_of_set (Category ` set df) \<and>
   sorted_wrt (<) (map agg_Category (category_totals df))"
proof -
  have m: "map agg_Category (category_totals df) = groupby_keys df"
    by (simp add: category_totals_def agg_row_def comp_def)
  have "groupby_keys df = sorted_list_of_set (set (map Category df))"
    unfolding groupby_keys_def by (simp only: sorted_list_of_set_sort_remdups)
  then have e: "groupby_keys df = sorted_list_of_set (Category ` set df)" by simp
  have "sorted_wrt (<) (sorted_list_of_set (Category ` set df))"
    by (rule strict_sorted_list_of_set)
  with m e show ?thesis by simp
qed

text \<open>
  C7 (as amended). In the summary table of the report of a non-empty table, each of the
  four float values (total, average, highest and lowest sale) is a key/value row whose
  value is text with thousands separators and two decimals. The transaction count is an
  integer: the test \<open>isinstance(v, float)\<close> sends it to the table as it is.
\<close>

theorem summary_table_formats_floats:
  assumes "df \<noteq> []"
  shows "data_summary (summary df) =
           [ [PyStr ''Total Transactions'', PyInt (len_df df)],
             [PyStr ''Total Amount'', PyStr (format_2f (Total_Amount (summary df)))],
             [PyStr ''Average Amount'', PyStr (format_2f (Average_Amount (summary df)))],
             [PyStr ''Highest Sale'', PyStr (format_2f (Highest_Sale (summary df)))],
             [PyStr ''Lowest Sale'', PyStr (format_2f (Lowest_Sale (summary df)))] ] \<and>
         cell_is_2f (data_summary (summary df) ! 1 ! 1) \<and>
         cell_is_2f (data_summary (summary df) ! 2 ! 1) \<and>
         cell_is_2f (data_summary (summary df) ! 3 ! 1) \<and>
         cell_is_2f (data_summary (summary df) ! 4 ! 1)"
proof -
  obtain t a h l where f: "Total_Amount (summary df) = Fin t" "Average_Amount (summary df) = Fin a"
      "Highest_Sale (summary df) = Fin h" "Lowest_Sale (summary df) = Fin l"
    using summary_finite [OF assms] by blast
  have c: "Total_Transactions (summary df) = len_df df" by (simp add: summary_def)
  show ?thesis
    by (simp add: data_summary_rows c f format_2f_is_2f_text del: is_2f_text.simps)
qed

theorem summary_table_formats_floats_witness:
  "scenario_table \<noteq> [] \<and>
   data_summary (summary scenario_table) =
     [ [PyStr ''Total Transactions'', PyInt 3],
       [PyStr ''Total Amount'', PyStr ''350.00''],
       [PyStr ''Average Amount'', PyStr ''116.67''],
       [PyStr ''Highest Sale'', PyStr ''200.00''],
       [PyStr ''Lowest Sale'', PyStr ''50.00''] ] \<and>
   cell_is_2f (data_summary (summary scenario_table) ! 1 ! 1) \<and>
   cell_is_2f (data_summary (summary scenario_table) ! 2 ! 1) \<and>
   cell_is_2f (data_summary (summary scenario_table) ! 3 ! 1) \<and>
   cell_is_2f (data_summary (summary scenario_table) ! 4 ! 1)"
proof -
  have h: "scenario_table \<noteq> []" by (simp add: scenario_table_def)
  have l: "len_df scenario_table = 3" by (simp add: len_df_def scenario_table_def)
  have s: "Total_Amount (summary scenario_table) = Fin 350"
      "Average_Amount (summary scenario_table) = Fin (350 / 3)"
      "Highest_Sale (summary scenario_table) = Fin 200"
      "Lowest_Sale (summary scenario_table) = Fin 50"
    by (simp_all add: scenario_summary)
  from summary_table_formats_floats [OF h] h show ?thesis
    by (simp only: l s scenario_formats) (simp add: is_digit_def)
qed

text \<open>
  C7 as the specification states it fails for the transaction count: in the report of
  the three-record table the count cell is the integer 3, not formatted text.
\<close>

theorem summary_table_count_unformatted:
  "data_summary (summary scenario_table) ! 0 = [PyStr ''Total Transactions'', PyInt 3] \<and>
   \<not> cell_is_2f (data_summary (summary scenario_table) ! 0 ! 1)"
  by (simp add: data_summary_rows scenario_summary)

text \<open>
  C8. Two runs of the data source with the same seed and the same date range, whatever
  state the generator was left in before each of them, produce the same table: the same
  number of records and the same set of categories.
\<close>

theorem dataset_two_runs_agree:
  assumes "create_sample_dataset rng sd start periods g = Inr (df1, g1)"
      and "create_sample_dataset rng sd start periods g' = Inr (df2, g2)"
  shows "length df1 = length df2 \<and> Category ` set df1 = Category ` set df2 \<and> df1 = df2"
proof -
  have "create_sample_dataset rng sd start periods g = create_sample_dataset rng sd start periods g'"
    by (rule dataset_ignores_prior_state)
  with assms have "df1 = df2" by simp
  then show ?thesis by simp
qed

theorem dataset_two_runs_agree_witness:
  "\<exists>df1 g1 df2 g2.
     script_dataset counter_rng 0 = Inr (df1, g1) \<and>
     script_dataset counter_rng g1 = Inr (df2, g2) \<and>
     length df1 = length df2 \<and> Category ` set df1 = Category ` set df2 \<and> df1 = df2"
proof -
  have p: "(0::nat) < 100" by simp
  obtain df1 g1 where r1: "create_sample_dataset counter_rng 10 0 100 0 = Inr (df1, g1)"
    using dataset_ok [OF counter_rng_randint counter_rng_uniform p, of 10 0 0] by blast
  obtain df2 g2 where r2: "create_sample_dataset counter_rng 10 0 100 g1 = Inr (df2, g2)"
    using dataset_ok [OF counter_rng_randint counter_rng_uniform p, of 10 0 g1] by blast
  from dataset_two_runs_agree [OF r1 r2] r1 r2 show ?thesis
    unfolding script_dataset_def by blast
qed



text \<open>
  C10. For a non-empty table the mean of the summary is its total divided by its count;
  in every category row the count is positive and the mean is the row's total divided
  by the row's count.
\<close>

theorem mean_is_total_over_count:
  "(df \<noteq> [] \<longrightarrow>
      Average_Amount (summary df) =
        py_truediv (Total_Amount (summary df)) (Total_Transactions (summary df))) \<and>
   (\<forall>r \<in> set (category_totals df).
      0 < agg_count r \<and> agg_mean r = py_truediv (agg_sum r) (agg_count r))"
proof -
  have a: "df \<noteq> [] \<longrightarrow> Average_Amount (summary df) =
        py_truediv (Total_Amount (summary df)) (Total_Transactions (summary df))"
    by (simp add: summary_def series_mean_def series_sum_def len_df_def)
  have b: "0 < agg_count r \<and> agg_mean r = py_truediv (agg_sum r) (agg_count r)"
    if r: "r \<in> set (category_totals df)" for r
  proof -
    from r obtain c where c: "c \<in> Category ` set df" and rc: "r = agg_row df c"
      by (auto simp: category_totals_def groupby_keys_set)
    from c have ne: "group_amounts df c \<noteq> []"
      by (auto simp: group_amounts_def filter_empty_conv)
    then show ?thesis
      by (simp add: rc agg_row_def series_count_def series_sum_def series_mean_def)
  qed
  from a b show ?thesis by blast
qed

theorem mean_is_total_over_count_witness:
  "scenario_table \<noteq> [] \<and>
   Average_Amount (summary scenario_table) =
     py_truediv (Total_Amount (summary scenario_table)) (Total_Transactions (summary scenario_table)) \<and>
   agg_row scenario_table ''Books'' \<in> set (category_totals scenario_table) \<and>
   agg_mean (agg_row scenario_table ''Books'') =
     py_truediv (agg_sum (agg_row scenario_table ''Books'')) (agg_count (agg_row scenario_table ''Books''))"
proof -
  have ne: "scenario_table \<noteq> []" by (simp add: scenario_table_def)
  have m: "agg_row scenario_table ''Books'' \<in> set (category_totals scenario_table)"
    by (simp add: category_totals_def groupby_keys_set scenario_table_def)
  from ne m mean_is_total_over_count [of scenario_table] show ?thesis by blast
qed

end
